theory Spec2Isabelle
  imports Complex_Main "HOL-Library.Word"
begin

unbundle bit_operations_syntax

section \<open>Common data: bytes and Python exceptions\<close>

type_synonym byte = "8 word"

text \<open>
  The exceptions the acquisition code raises, as values. Floating-point values of the
  source (Python \<open>float\<close>, numpy arrays) are modelled as exact reals throughout.
\<close>

datatype error =
    ValueError string
  | OverflowError
  | StructError
  | KeyError
  | IndexError
  | ZeroDivisionError
  | NotImplementedError string
  | Exception string

section \<open>Packet decoding (emg\_sensor/emg\_parser.py)\<close>

text \<open>\<open>int.from_bytes(bs, byteorder="little", signed=False)\<close>.\<close>

definition from_bytes_little :: "byte list \<Rightarrow> int" where
  "from_bytes_little bs = foldr (\<lambda>b acc. uint b + 256 * acc) bs 0"

text \<open>\<open>v.to_bytes(n, "little")\<close>: unsigned, raises OverflowError when \<open>v\<close> does not fit.\<close>

definition to_bytes_little :: "nat \<Rightarrow> int \<Rightarrow> error + byte list" where
  "to_bytes_little n v =
     (if v < 0 \<or> 256 ^ n \<le> v then Inl OverflowError
      else Inr (map (\<lambda>k. word_of_int (v div 256 ^ k)) [0..<n]))"

text \<open>\<open>struct.unpack("<i", bs)[0]\<close>: four bytes read as a signed 32-bit integer.\<close>

definition unpack_le_i32 :: "byte list \<Rightarrow> error + int" where
  "unpack_le_i32 bs =
     (if length bs \<noteq> 4 then Inl StructError
      else Inr (sint (word_of_int (from_bytes_little bs) :: 32 word)))"

text \<open>The dict \<open>{"emg": ..., "imu": ...}\<close> that \<open>parse_packet\<close> returns.\<close>

record packet_fields =
  emg :: "real list"
  imu :: "byte list"

text \<open>The body of the loop \<open>for i in range(5)\<close>: the value appended for channel \<open>i\<close>.\<close>

definition emg_value :: "byte list \<Rightarrow> nat \<Rightarrow> error + real" where
  "emg_value emg_bytes i =
     (let start = i * 3;
          val = from_bytes_little (take 3 (drop start emg_bytes))
      in if val AND 0x00800000 \<noteq> 0
         then (case to_bytes_little 4 (val OR 0xFF000000) of
                 Inl e \<Rightarrow> Inl e
               | Inr bs \<Rightarrow>
                   (case unpack_le_i32 bs of
                      Inl e \<Rightarrow> Inl e
                    | Inr v \<Rightarrow> Inr (real_of_int v * 0.0240405)))
         else Inr (real_of_int val * 0.0240405))"

fun emg_loop :: "byte list \<Rightarrow> nat list \<Rightarrow> real list \<Rightarrow> error + real list" where
  "emg_loop emg_bytes [] emg_values = Inr emg_values"
| "emg_loop emg_bytes (i # rest) emg_values =
     (case emg_value emg_bytes i of
        Inl e \<Rightarrow> Inl e
      | Inr v \<Rightarrow> emg_loop emg_bytes rest (emg_values @ [v]))"

definition parse_packet :: "byte list \<Rightarrow> error + packet_fields" where
  "parse_packet packet =
     (if length packet < 15
      then Inl (ValueError ''Incomplete packet: less than 15 bytes'')
      else (let emg_bytes = take 15 packet
            in case emg_loop emg_bytes [0..<5] [] of
                 Inl e \<Rightarrow> Inl e
               | Inr emg_values \<Rightarrow> Inr \<lparr>emg = emg_values, imu = drop 15 packet\<rparr>))"

text \<open>
  The reference reading of a channel field: bytes \<open>3i, 3i+1, 3i+2\<close> of the packet as a
  little-endian 24-bit field, interpreted in two's complement.
\<close>

definition raw_int :: "byte list \<Rightarrow> nat \<Rightarrow> int" where
  "raw_int packet i =
     (let u = uint (packet ! (3 * i)) + 2 ^ 8 * uint (packet ! (3 * i + 1))
              + 2 ^ 16 * uint (packet ! (3 * i + 2))
      in if 2 ^ 23 \<le> u then u - 2 ^ 24 else u)"

section \<open>Transport (emg\_sensor/emg\_sock.py)\<close>

text \<open>
  The pyserial \<open>Serial\<close> object that \<open>sock.dev\<close> holds: the bytes received from the
  sensor and not yet read, the bytes written so far, whether the port is open, and the
  sensor's answer to a written command (the bytes that arrive within the settle delay).
  The serial primitives themselves are taken to succeed; the exceptions modelled are the
  ones the repository's own code raises.
\<close>

record serial_port =
  rx_buffer :: "byte list"
  tx_log :: "byte list"
  is_open :: bool
  device_reply :: "byte list \<Rightarrow> byte list"

definition serial_write :: "byte list \<Rightarrow> serial_port \<Rightarrow> serial_port" where
  "serial_write bs p = p\<lparr>tx_log := tx_log p @ bs, rx_buffer := rx_buffer p @ device_reply p bs\<rparr>"

definition read_all :: "serial_port \<Rightarrow> byte list \<times> serial_port" where
  "read_all p = (rx_buffer p, p\<lparr>rx_buffer := []\<rparr>)"

text \<open>The class attribute \<open>sock.fs\<close>.\<close>

definition sock_fs :: "nat \<Rightarrow> byte list option" where
  "sock_fs = [250 \<mapsto> [0x04], 500 \<mapsto> [0x05]]"

definition firmware_message :: string where
  "firmware_message =
     ''Invalid sample frequency, please update the device firmware or fall back to 250Hz.''"

text \<open>
  \<open>sock.set_frequency\<close>: flush (of the output, no effect here), write the rate command,
  read everything that is waiting, and refuse 500 Hz when nothing came back.
\<close>

definition sock_set_frequency :: "nat \<Rightarrow> serial_port \<Rightarrow> error + serial_port" where
  "sock_set_frequency fs p =
     (case sock_fs fs of
        None \<Rightarrow> Inl KeyError
      | Some cmd \<Rightarrow>
          (let p1 = serial_write cmd p;
               (res, p2) = read_all p1
           in if fs = 500 \<and> length res = 0
              then Inl (NotImplementedError firmware_message)
              else Inr p2))"

definition start_data :: "serial_port \<Rightarrow> serial_port" where
  "start_data p = serial_write [0x01] (snd (read_all p))"

definition stop_recv :: "serial_port \<Rightarrow> serial_port" where
  "stop_recv p = serial_write [0x02] p"

definition close_socket :: "serial_port \<Rightarrow> serial_port" where
  "close_socket p = (serial_write [0x02] p)\<lparr>is_open := False\<rparr>"

text \<open>
  \<open>sock.connect_socket\<close>: start streaming, poll \<open>in_waiting\<close> for two seconds, stop the
  trial stream as soon as bytes are waiting, fail otherwise.
\<close>

definition connect_socket :: "serial_port \<Rightarrow> error + serial_port" where
  "connect_socket p =
     (let p1 = start_data p
      in if rx_buffer p1 \<noteq> [] then Inr (stop_recv p1)
         else Inl (Exception ''connection failed, no data available.''))"

text \<open>
  The host the reader runs on: the ports \<open>sock._find_devs\<close> found and could open, and the
  serial port that opening one of them yields.
\<close>

record host =
  found_devs :: "string list"
  open_serial :: "string \<Rightarrow> serial_port"

definition find_devs :: "host \<Rightarrow> error + string list" where
  "find_devs h =
     (if length (found_devs h) = 0 then Inl (Exception ''EMG device not found'')
      else Inr (found_devs h))"

section \<open>Device controller (emg\_sensor/data\_reader.py)\<close>

datatype Dev = SIGNAL | SIGNAL_START | IDLE | IDLE_START | TERMINATE | TERMINATE_START

fun Dev_name :: "Dev \<Rightarrow> string" where
  "Dev_name SIGNAL = ''SIGNAL''"
| "Dev_name SIGNAL_START = ''SIGNAL_START''"
| "Dev_name IDLE = ''IDLE''"
| "Dev_name IDLE_START = ''IDLE_START''"
| "Dev_name TERMINATE = ''TERMINATE''"
| "Dev_name TERMINATE_START = ''TERMINATE_START''"

text \<open>
  A frame is a list of samples, each sample a list of values; one queue item is the list
  of frames of one parser call, or the sentinel \<open>None\<close>.
\<close>

type_synonym frame = "real list list"

text \<open>
  The fields of an \<open>iFocus\<close> object. \<open>alive\<close> is \<open>Thread.is_alive()\<close> of the
  controller's own thread; \<open>parser_buffer\<close> is the partial-byte buffer held by its
  \<open>Parser\<close>; \<open>save_data\<close> is the frame queue, oldest item first.
\<close>

record iFocus =
  status :: Dev
  socket_flag :: "string option"
  save_data :: "frame list option list"
  parser_buffer :: "byte list"
  with_q :: bool
  bdf_flag :: bool
  fs_eeg :: nat
  fs_imu :: nat
  name :: string
  dev :: serial_port
  alive :: bool

text \<open>
  What a blocking operation of the controller or of the session does: it returns, it
  raises, or it waits forever on a state the controller thread never reaches.
\<close>

datatype 's outcome = Returned 's | Raised error 's | Blocked

text \<open>
  The transport failures the controller thread can meet: an exception message from
  \<open>dev.start_data()\<close> or from \<open>dev.stop_recv()\<close>, \<open>None\<close> when the call succeeds.
\<close>

record io_env =
  start_data_fails :: "string option"
  stop_recv_fails :: "string option"

text \<open>
  Modelled from the spec: the class \<open>Parser\<close> (emg\_sensor/iFocusParser.py) is not among
  the sources. The frame parser is a stateful byte-stream decoder that accumulates
  transport bytes and emits completed frames; its \<open>parse_data\<close> is taken as a parameter
  mapping the retained bytes and the new bytes to the frames and the bytes retained
  next (or to an exception message), and its \<open>clear_buffer\<close> resets the retained bytes.
\<close>

type_synonym parser = "byte list \<Rightarrow> byte list \<Rightarrow> string + (frame list \<times> byte list)"

definition clear_buffer :: "iFocus \<Rightarrow> iFocus" where
  "clear_buffer d = d\<lparr>parser_buffer := []\<rparr>"

text \<open>
  One turn of the loop \<open>while self.__status in [SIGNAL]\<close> sees either what
  \<open>recv_socket(100)\<close> returned, or an exception it raised, or a status written by
  another thread before the loop condition is tested again.
\<close>

datatype recv_event = Recv "byte list" | RecvError string | StatusWrite Dev

text \<open>
  The receive loop of \<open>__recv_data\<close>, over the events it meets. \<open>None\<close>: the events
  are used up and the loop is still running in \<open>SIGNAL\<close>.
\<close>

fun recv_loop :: "parser \<Rightarrow> recv_event list \<Rightarrow> iFocus \<Rightarrow> iFocus option" where
  "recv_loop parse [] d = (if status d \<noteq> SIGNAL then Some d else None)"
| "recv_loop parse (ev # evs) d =
     (if status d \<noteq> SIGNAL then Some d
      else (case ev of
              StatusWrite s \<Rightarrow> recv_loop parse evs (d\<lparr>status := s\<rparr>)
            | RecvError msg \<Rightarrow>
                Some (d\<lparr>socket_flag := Some (''Data transmission error: '' @ msg),
                        status := TERMINATE_START\<rparr>)
            | Recv data \<Rightarrow>
                (if data = [] then recv_loop parse evs d
                 else (case parse (parser_buffer d) data of
                         Inl msg \<Rightarrow>
                           Some (d\<lparr>socket_flag := Some (''Data transmission error: '' @ msg),
                                   status := TERMINATE_START\<rparr>)
                       | Inr (ret, buf) \<Rightarrow>
                           (let d1 = d\<lparr>parser_buffer := buf\<rparr>
                            in recv_loop parse evs
                                 (if ret \<noteq> [] \<and> with_q d1
                                  then d1\<lparr>save_data := save_data d1 @ [Some ret]\<rparr>
                                  else d1))))))"

text \<open>The clean-up loop \<open>while not self.__save_data.empty(): self.__save_data.get_nowait()\<close>.\<close>

fun drain_queue :: "'a list \<Rightarrow> 'a list" where
  "drain_queue [] = []"
| "drain_queue (x # q) = drain_queue q"

text \<open>What \<open>__recv_data\<close> does after its loop has ended.\<close>

definition recv_finish :: "io_env \<Rightarrow> iFocus \<Rightarrow> iFocus" where
  "recv_finish env d =
     (let d1 = clear_buffer d;
          d2 = d1\<lparr>save_data := save_data d1 @ [None]\<rparr>;
          d3 = d2\<lparr>save_data := drain_queue (save_data d2)\<rparr>
      in if status d3 \<noteq> TERMINATE_START
         then (case stop_recv_fails env of
                 None \<Rightarrow> d3\<lparr>dev := stop_recv (dev d3)\<rparr>
               | Some msg \<Rightarrow>
                   (if status d3 = IDLE_START
                    then d3\<lparr>socket_flag := Some ''Connection lost.''\<rparr>
                    else d3)\<lparr>status := TERMINATE_START\<rparr>)
         else d3)"

definition recv_data :: "io_env \<Rightarrow> parser \<Rightarrow> recv_event list \<Rightarrow> iFocus \<Rightarrow> iFocus option" where
  "recv_data env parse evs d =
     (case start_data_fails env of
        Some msg \<Rightarrow>
          Some (d\<lparr>socket_flag := Some (''SIGNAL mode initialization failed: '' @ msg),
                  status := TERMINATE_START\<rparr>)
      | None \<Rightarrow>
          (case recv_loop parse evs (d\<lparr>dev := start_data (dev d), status := SIGNAL\<rparr>) of
             None \<Rightarrow> None
           | Some d1 \<Rightarrow> Some (recv_finish env d1)))"

text \<open>The end of \<open>run\<close>: the socket is closed and the status becomes \<open>TERMINATE\<close>.\<close>

definition terminate_thread :: "iFocus \<Rightarrow> iFocus" where
  "terminate_thread d = d\<lparr>dev := close_socket (dev d), status := TERMINATE, alive := False\<rparr>"

text \<open>
  One pass of the loop \<open>while self.__status != TERMINATE_START\<close> of \<open>run\<close>, from its
  head to the point where the thread waits (inside the receive loop or in the idle
  loop) or ends.
\<close>

definition run_loop :: "io_env \<Rightarrow> iFocus \<Rightarrow> iFocus" where
  "run_loop env d =
     (if status d = TERMINATE_START then terminate_thread d
      else if status d = SIGNAL_START
      then (case start_data_fails env of
              Some msg \<Rightarrow>
                terminate_thread
                  (d\<lparr>socket_flag := Some (''SIGNAL mode initialization failed: '' @ msg),
                     status := TERMINATE_START\<rparr>)
            | None \<Rightarrow> d\<lparr>dev := start_data (dev d), status := SIGNAL\<rparr>)
      else if status d = IDLE_START then d\<lparr>status := IDLE\<rparr>
      else terminate_thread
             (d\<lparr>socket_flag := Some (''Unknown status: '' @ Dev_name (status d))\<rparr>))"

text \<open>
  What the controller thread does once another thread has written a new status:
  \<open>was\<close> is the status it was waiting in. From \<open>SIGNAL\<close> it leaves the receive loop
  and finishes \<open>__recv_data\<close> first; a thread that has ended does nothing.
\<close>

definition thread_reacts :: "io_env \<Rightarrow> Dev \<Rightarrow> iFocus \<Rightarrow> iFocus" where
  "thread_reacts env was d =
     (if \<not> alive d then d
      else if was = SIGNAL then run_loop env (recv_finish env d)
      else run_loop env d)"

definition close_dev :: "io_env \<Rightarrow> iFocus \<Rightarrow> iFocus outcome" where
  "close_dev env d =
     (if status d \<noteq> TERMINATE
      then (let d1 = thread_reacts env (status d) (d\<lparr>status := TERMINATE_START\<rparr>)
            in if status d1 = TERMINATE then Returned (d1\<lparr>alive := False\<rparr>) else Blocked)
      else Returned (d\<lparr>alive := False\<rparr>))"

text \<open>\<open>str(self.__socket_flag)\<close>.\<close>

definition str_flag :: "string option \<Rightarrow> string" where
  "str_flag f = (case f of None \<Rightarrow> ''None'' | Some m \<Rightarrow> m)"

definition check_dev_status :: "io_env \<Rightarrow> iFocus \<Rightarrow> iFocus outcome" where
  "check_dev_status env d =
     (case socket_flag d of
        None \<Rightarrow> Returned d
      | Some flag \<Rightarrow>
          (if alive d
           then (case close_dev env d of
                   Returned d1 \<Rightarrow> Raised (Exception (str_flag (socket_flag d1))) d1
                 | Raised e d1 \<Rightarrow> Raised e d1
                 | Blocked \<Rightarrow> Blocked)
           else Raised (Exception (str_flag (socket_flag d))) d))"

definition start_acquisition_data :: "io_env \<Rightarrow> bool \<Rightarrow> iFocus \<Rightarrow> iFocus outcome" where
  "start_acquisition_data env wq d =
     (case check_dev_status env d of
        Raised e d' \<Rightarrow> Raised e d'
      | Blocked \<Rightarrow> Blocked
      | Returned d0 \<Rightarrow>
          (let d1 = d0\<lparr>with_q := wq\<rparr>
           in if status d1 = SIGNAL then Returned d1
              else (let d2 = thread_reacts env (status d1) (d1\<lparr>status := SIGNAL_START\<rparr>)
                    in if status d2 = SIGNAL \<or> status d2 = TERMINATE
                       then check_dev_status env d2
                       else Blocked)))"

definition stop_acquisition :: "io_env \<Rightarrow> iFocus \<Rightarrow> iFocus outcome" where
  "stop_acquisition env d =
     (case check_dev_status env d of
        Raised e d' \<Rightarrow> Raised e d'
      | Blocked \<Rightarrow> Blocked
      | Returned d0 \<Rightarrow>
          (let d1 = thread_reacts env (status d0) (d0\<lparr>status := IDLE_START\<rparr>)
           in if status d1 = IDLE \<or> status d1 = TERMINATE
              then check_dev_status env d1
              else Blocked))"

text \<open>
  \<open>iFocus.set_frequency(fs_eeg)\<close>: with no argument the rate is the one in \<open>dev_args\<close>;
  the object has its \<open>dev\<close> wherever the method is called here.
\<close>

definition set_frequency :: "nat option \<Rightarrow> iFocus \<Rightarrow> error + iFocus" where
  "set_frequency arg d =
     (if status d = SIGNAL
      then Inl (Exception ''Data acquisition already started, please stop first.'')
      else (let rate = (case arg of None \<Rightarrow> fs_eeg d | Some r \<Rightarrow> r)
            in if rate \<notin> {250, 500} then Inl (ValueError ''fs_eeg should be 250 or 500'')
               else (let d1 = d\<lparr>fs_eeg := rate, fs_imu := rate div 5\<rparr>
                     in case sock_set_frequency rate (dev d1) of
                          Inl e \<Rightarrow> Inl e
                        | Inr p \<Rightarrow> Inr (d1\<lparr>dev := p\<rparr>))))"

text \<open>
  \<open>iFocus()\<close> with no port given, after the class attribute \<open>dev_args\<close> was set to the
  rates \<open>(eeg, imu)\<close>; the thread started at the end settles in \<open>IDLE\<close>.
\<close>

definition iFocus_init :: "host \<Rightarrow> io_env \<Rightarrow> nat \<times> nat \<Rightarrow> error + iFocus" where
  "iFocus_init h env rates =
     (case find_devs h of
        Inl e \<Rightarrow> Inl e
      | Inr ports \<Rightarrow>
          (let port = hd ports;
               d = \<lparr>status = TERMINATE,
                    socket_flag = Some ''Device not connected, please connect first.'',
                    save_data = [],
                    parser_buffer = [], with_q = True, bdf_flag = False,
                    fs_eeg = fst rates, fs_imu = snd rates, name = [],
                    dev = open_serial h port, alive = False\<rparr>
           in case set_frequency None d of
                Inl e \<Rightarrow> Inl e
              | Inr d1 \<Rightarrow>
                  (case connect_socket (dev d1) of
                     Inl e \<Rightarrow> Inl e
                   | Inr p \<Rightarrow>
                       Inr (run_loop env
                              (d1\<lparr>dev := p, status := IDLE_START, socket_flag := None,
                                  name := port, alive := True\<rparr>)))))"

section \<open>Filter pipeline (emg\_reader.py, class EMGFilter)\<close>

definition DEFAULT_FS_EEG_HIGH :: nat where "DEFAULT_FS_EEG_HIGH = 500"
definition DEFAULT_FS_IMU_HIGH :: nat where "DEFAULT_FS_IMU_HIGH = 100"
definition DEFAULT_FS_EEG_LOW :: nat where "DEFAULT_FS_EEG_LOW = 250"
definition DEFAULT_FS_IMU_LOW :: nat where "DEFAULT_FS_IMU_LOW = 50"
definition FILTER_ORDER :: nat where "FILTER_ORDER = 4"
definition QUALITY_FACTOR :: real where "QUALITY_FACTOR = 30"
definition DEFAULT_WINDOW_DURATION :: real where "DEFAULT_WINDOW_DURATION = 0.2"

text \<open>
  The three routines of \<open>scipy.signal\<close> the filter calls. The filter design and the
  zero-phase filtering are library code; they are parameters of the model, each either
  raising or returning its coefficients \<open>(b, a)\<close> or its filtered signal.
\<close>

type_synonym coeffs = "real list \<times> real list"

record scipy_signal =
  butter :: "nat \<Rightarrow> real \<Rightarrow> real \<Rightarrow> error + coeffs"
  iirnotch :: "real \<Rightarrow> real \<Rightarrow> error + coeffs"
  filtfilt :: "coeffs \<Rightarrow> real list \<Rightarrow> error + real list"

record EMGFilter =
  fs :: nat
  window_size :: nat
  lowcut :: real
  highcut :: real
  notch_freq :: real
  quality_factor :: real
  raw_data :: "real list"
  bandpassed_data :: "real list"
  notched_data :: "real list"
  envelope_data :: "real list"

definition EMGFilter_init :: "nat \<Rightarrow> nat \<Rightarrow> real \<Rightarrow> real \<Rightarrow> real \<Rightarrow> EMGFilter" where
  "EMGFilter_init rate wsize low_cut high_cut notch =
     \<lparr>fs = rate, window_size = wsize, lowcut = low_cut, highcut = high_cut,
      notch_freq = notch, quality_factor = QUALITY_FACTOR,
      raw_data = [], bandpassed_data = [], notched_data = [], envelope_data = []\<rparr>"

definition bandpass_filter :: "scipy_signal \<Rightarrow> EMGFilter \<Rightarrow> real list \<Rightarrow> error + real list" where
  "bandpass_filter lib flt data =
     (if fs flt = 0 then Inl ZeroDivisionError
      else (let low_norm = 2 * lowcut flt / real (fs flt);
                high_norm = 2 * highcut flt / real (fs flt)
            in case butter lib FILTER_ORDER low_norm high_norm of
                 Inl e \<Rightarrow> Inl e
               | Inr ba \<Rightarrow> filtfilt lib ba data))"

definition notch_filter :: "scipy_signal \<Rightarrow> EMGFilter \<Rightarrow> real list \<Rightarrow> error + real list" where
  "notch_filter lib flt data =
     (if fs flt = 0 then Inl ZeroDivisionError
      else (let freq_norm = 2 * notch_freq flt / real (fs flt)
            in case iirnotch lib freq_norm (quality_factor flt) of
                 Inl e \<Rightarrow> Inl e
               | Inr ba \<Rightarrow> filtfilt lib ba data))"

text \<open>The discrete linear convolution: entry \<open>n\<close> is the sum of \<open>a[n - m] * v[m]\<close>.\<close>

definition convolve_full :: "real list \<Rightarrow> real list \<Rightarrow> real list" where
  "convolve_full a v =
     map (\<lambda>n. \<Sum>m \<leftarrow> [0..<length v].
                 if m \<le> n \<and> n - m < length a then a ! (n - m) * v ! m else 0)
         [0..<length a + length v - 1]"

text \<open>
  \<open>numpy.convolve(a, v, mode='same')\<close>: numpy swaps the arguments when \<open>v\<close> is the longer
  one, refuses an empty argument, and returns the centred part of the full convolution,
  as long as the longer argument.
\<close>

definition np_convolve_same :: "real list \<Rightarrow> real list \<Rightarrow> error + real list" where
  "np_convolve_same a v =
     (let (a1, v1) = (if length v > length a then (v, a) else (a, v))
      in if length a1 = 0 then Inl (ValueError ''a cannot be empty'')
         else if length v1 = 0 then Inl (ValueError ''v cannot be empty'')
         else Inr (take (length a1) (drop ((length v1 - 1) div 2) (convolve_full a1 v1))))"

definition compute_rms_envelope :: "EMGFilter \<Rightarrow> real list \<Rightarrow> error + real list" where
  "compute_rms_envelope flt data =
     (let rect = map abs data
      in case np_convolve_same (map (\<lambda>x. x ^ 2) rect)
                (replicate (window_size flt) (1 / real (window_size flt))) of
           Inl e \<Rightarrow> Inl e
         | Inr c \<Rightarrow> Inr (map sqrt c))"

definition process_data :: "scipy_signal \<Rightarrow> EMGFilter \<Rightarrow> real list \<Rightarrow> error + EMGFilter" where
  "process_data lib flt raw =
     (let f1 = flt\<lparr>raw_data := raw\<rparr>
      in case bandpass_filter lib f1 raw of
           Inl e \<Rightarrow> Inl e
         | Inr bp \<Rightarrow>
             (let f2 = f1\<lparr>bandpassed_data := bp\<rparr>
              in case notch_filter lib f2 (bandpassed_data f2) of
                   Inl e \<Rightarrow> Inl e
                 | Inr nt \<Rightarrow>
                     (let f3 = f2\<lparr>notched_data := nt\<rparr>
                      in case compute_rms_envelope f3 (notched_data f3) of
                           Inl e \<Rightarrow> Inl e
                         | Inr env \<Rightarrow> Inr (f3\<lparr>envelope_data := env\<rparr>))))"

text \<open>
  The envelope as the specification words it: the square root, entry by entry, of the
  same-length centred convolution of the squared rectified signal with the uniform
  moving-average kernel of the window length; one output entry per input entry.
\<close>

definition same_length_convolution :: "real list \<Rightarrow> real list \<Rightarrow> real list" where
  "same_length_convolution a v =
     take (length a) (drop ((length v - 1) div 2) (convolve_full a v))"

definition rms_envelope_reference :: "nat \<Rightarrow> real list \<Rightarrow> real list" where
  "rms_envelope_reference wsize xs =
     map sqrt (same_length_convolution (map (\<lambda>x. \<bar>x\<bar> ^ 2) xs)
                 (replicate wsize (1 / real wsize)))"

section \<open>Acquisition session (emg\_reader.py, class EMGReader)\<close>

text \<open>
  The fields of an \<open>EMGReader\<close>. \<open>recent_points\<close> is the \<open>deque\<close> of capacity
  \<open>reader_window_size\<close>, oldest sample first; \<open>read_thread\<close> is \<open>None\<close> before the first
  start and otherwise tells whether the drain thread is alive.
\<close>

record EMGReader =
  device :: iFocus
  device_port :: string
  reader_fs :: nat
  reader_window_size :: nat
  emg_filter :: EMGFilter
  recent_points :: "real list"
  samples_per_packet :: nat
  running :: bool
  read_thread :: "bool option"

text \<open>The \<open>if\<close>/\<open>else\<close> on \<open>sample_rate_variant\<close> at the head of \<open>__init__\<close>.\<close>

definition sample_rates :: "string \<Rightarrow> nat \<times> nat" where
  "sample_rates sample_rate_variant =
     (if sample_rate_variant = ''low''
      then (DEFAULT_FS_EEG_LOW, DEFAULT_FS_IMU_LOW)
      else (DEFAULT_FS_EEG_HIGH, DEFAULT_FS_IMU_HIGH))"

text \<open>\<open>int(self.fs * DEFAULT_WINDOW_DURATION)\<close>.\<close>

definition window_size_of :: "nat \<Rightarrow> nat" where
  "window_size_of rate = nat \<lfloor>real rate * DEFAULT_WINDOW_DURATION\<rfloor>"

definition EMGReader_init ::
  "host \<Rightarrow> io_env \<Rightarrow> real \<Rightarrow> real \<Rightarrow> real \<Rightarrow> string \<Rightarrow> error + EMGReader" where
  "EMGReader_init h env low_cut high_cut notch sample_rate_variant =
     (case iFocus_init h env (sample_rates sample_rate_variant) of
        Inl e \<Rightarrow> Inl e
      | Inr d \<Rightarrow>
          (let rate = fs_eeg d;
               wsize = window_size_of rate
           in Inr \<lparr>device = d, device_port = name d, reader_fs = rate,
                   reader_window_size = wsize,
                   emg_filter = EMGFilter_init rate wsize low_cut high_cut notch,
                   recent_points = [], samples_per_packet = 5,
                   running = False, read_thread = None\<rparr>))"

text \<open>
  \<open>deque.append\<close> on a deque with \<open>maxlen\<close>: the new sample goes to the right end and,
  when the deque is then over its capacity, the leftmost one is dropped.
\<close>

definition deque_append :: "nat \<Rightarrow> 'a list \<Rightarrow> 'a \<Rightarrow> 'a list" where
  "deque_append maxlen dq x = (let dq1 = dq @ [x] in if maxlen < length dq1 then tl dq1 else dq1)"

definition process_emg_data :: "scipy_signal \<Rightarrow> EMGReader \<Rightarrow> error + EMGReader" where
  "process_emg_data lib rd =
     (if length (recent_points rd) < reader_window_size rd then Inr rd
      else (case process_data lib (emg_filter rd) (recent_points rd) of
              Inl e \<Rightarrow> Inl e
            | Inr f \<Rightarrow> Inr (rd\<lparr>emg_filter := f\<rparr>)))"

text \<open>The loop \<open>for val in emg_values\<close> of \<open>_read_loop\<close>.\<close>

fun admit_values :: "scipy_signal \<Rightarrow> EMGReader \<Rightarrow> real list \<Rightarrow> error + EMGReader" where
  "admit_values lib rd [] = Inr rd"
| "admit_values lib rd (val # vals) =
     (let rd1 = rd\<lparr>recent_points := deque_append (reader_window_size rd) (recent_points rd) val\<rparr>
      in if length (recent_points rd1) \<ge> reader_window_size rd1
         then (case process_emg_data lib rd1 of
                 Inl e \<Rightarrow> Inl e
               | Inr rd2 \<Rightarrow> admit_values lib rd2 vals)
         else admit_values lib rd1 vals)"

text \<open>\<open>[sample[0] for sample in frame[:self.samples_per_packet]]\<close>.\<close>

fun first_values :: "real list list \<Rightarrow> error + real list" where
  "first_values [] = Inr []"
| "first_values (sample # samples) =
     (case sample of
        [] \<Rightarrow> Inl IndexError
      | v # _ \<Rightarrow> (case first_values samples of Inl e \<Rightarrow> Inl e | Inr vs \<Rightarrow> Inr (v # vs)))"

text \<open>The loop \<open>for frame in frames\<close> of \<open>_read_loop\<close>.\<close>

fun admit_frames :: "scipy_signal \<Rightarrow> EMGReader \<Rightarrow> frame list \<Rightarrow> error + EMGReader" where
  "admit_frames lib rd [] = Inr rd"
| "admit_frames lib rd (frame # frames) =
     (if frame = [] then admit_frames lib rd frames
      else (case first_values (take (samples_per_packet rd) frame) of
              Inl e \<Rightarrow> Inl e
            | Inr emg_values \<Rightarrow>
                (case admit_values lib rd emg_values of
                   Inl e \<Rightarrow> Inl e
                 | Inr rd1 \<Rightarrow> admit_frames lib rd1 frames)))"

definition start_reading :: "io_env \<Rightarrow> EMGReader \<Rightarrow> EMGReader outcome" where
  "start_reading env rd =
     (if running rd then Returned rd
      else (let rd1 = rd\<lparr>running := True\<rparr>
            in case start_acquisition_data env True (device rd1) of
                 Raised e d \<Rightarrow> Raised e (rd1\<lparr>device := d\<rparr>)
               | Blocked \<Rightarrow> Blocked
               | Returned d \<Rightarrow> Returned (rd1\<lparr>device := d, read_thread := Some True\<rparr>)))"

definition join_read_thread :: "EMGReader \<Rightarrow> EMGReader" where
  "join_read_thread rd =
     (case read_thread rd of
        Some True \<Rightarrow> rd\<lparr>read_thread := Some False\<rparr>
      | _ \<Rightarrow> rd)"

definition stop_reading :: "io_env \<Rightarrow> EMGReader \<Rightarrow> EMGReader outcome" where
  "stop_reading env rd =
     (if \<not> running rd then Returned rd
      else (let rd1 = join_read_thread (rd\<lparr>running := False\<rparr>)
            in case stop_acquisition env (device rd1) of
                 Raised e d \<Rightarrow> Raised e (rd1\<lparr>device := d\<rparr>)
               | Blocked \<Rightarrow> Blocked
               | Returned d \<Rightarrow>
                   (case close_dev env d of
                      Raised e d1 \<Rightarrow> Raised e (rd1\<lparr>device := d1\<rparr>)
                    | Blocked \<Rightarrow> Blocked
                    | Returned d1 \<Rightarrow> Returned (rd1\<lparr>device := d1, recent_points := []\<rparr>))))"

section \<open>Stand-ins used to run the model on concrete inputs\<close>

text \<open>
  A filter library whose design routines return the identity coefficients and whose
  zero-phase filter returns its input; a sensor that answers every command with one
  byte, and one that never answers; a host with one such sensor; a parser that emits no
  frame.
\<close>

definition unit_gain :: scipy_signal where
  "unit_gain = \<lparr>butter = (\<lambda>n lo hi. Inr ([1], [1])), iirnotch = (\<lambda>w q. Inr ([1], [1])),
                filtfilt = (\<lambda>ba x. Inr x)\<rparr>"

definition answering_port :: serial_port where
  "answering_port = \<lparr>rx_buffer = [], tx_log = [], is_open = True,
                     device_reply = (\<lambda>cmd. [0xA5])\<rparr>"


definition one_sensor :: host where
  "one_sensor = \<lparr>found_devs = [''COM3''], open_serial = (\<lambda>port. answering_port)\<rparr>"

definition no_faults :: io_env where
  "no_faults = \<lparr>start_data_fails = None, stop_recv_fails = None\<rparr>"

definition no_frames :: parser where
  "no_frames = (\<lambda>buf data. Inr ([], buf @ data))"

text \<open>
  A parser that turns every read into one frame of five samples and an IMU triple.
\<close>

definition one_frame :: parser where
  "one_frame = (\<lambda>buf data. Inr ([[[1], [2], [3], [4], [5], [0, 0, 0]]], []))"

text \<open>
  The reader built on that host with the default filter settings, as the constructor
  leaves it; the same reader once started; and once stopped again.
\<close>

definition idle_device :: iFocus where
  "idle_device =
     \<lparr>status = IDLE, socket_flag = None, save_data = [], parser_buffer = [],
      with_q = True, bdf_flag = False, fs_eeg = 500, fs_imu = 100, name = ''COM3'',
      dev = \<lparr>rx_buffer = [0xA5, 0xA5], tx_log = [0x05, 0x01, 0x02], is_open = True,
             device_reply = (\<lambda>cmd. [0xA5])\<rparr>,
      alive = True\<rparr>"

definition idle_reader :: EMGReader where
  "idle_reader =
     \<lparr>device = idle_device, device_port = ''COM3'', reader_fs = 500,
      reader_window_size = 100, emg_filter = EMGFilter_init 500 100 10 100 50,
      recent_points = [], samples_per_packet = 5, running = False, read_thread = None\<rparr>"

definition acquiring_reader :: EMGReader where
  "acquiring_reader =
     idle_reader
       \<lparr>device := idle_device
          \<lparr>status := SIGNAL,
           dev := \<lparr>rx_buffer = [0xA5], tx_log = [0x05, 0x01, 0x02, 0x01], is_open = True,
                   device_reply = (\<lambda>cmd. [0xA5])\<rparr>\<rparr>,
        running := True, read_thread := Some True\<rparr>"

definition stopped_reader :: EMGReader where
  "stopped_reader =
     idle_reader
       \<lparr>device := idle_device
          \<lparr>status := TERMINATE,
           dev := \<lparr>rx_buffer = [0xA5, 0xA5, 0xA5],
                   tx_log = [0x05, 0x01, 0x02, 0x01, 0x02, 0x02], is_open = False,
                   device_reply = (\<lambda>cmd. [0xA5])\<rparr>,
           alive := False\<rparr>,
        running := False, read_thread := Some False\<rparr>"

text \<open>
  A controller whose receive loop met a transport error: the reason is stored and its
  thread has ended.
\<close>

definition faulted_device :: iFocus where
  "faulted_device =
     idle_device\<lparr>status := TERMINATE,
                 socket_flag := Some ''Data transmission error: device disconnected'',
                 alive := False\<rparr>"

text \<open>The reader built on the same host with the variant \<open>"low"\<close>.\<close>

definition low_device :: iFocus where
  "low_device =
     \<lparr>status = IDLE, socket_flag = None, save_data = [], parser_buffer = [],
      with_q = True, bdf_flag = False, fs_eeg = 250, fs_imu = 50, name = ''COM3'',
      dev = \<lparr>rx_buffer = [0xA5, 0xA5], tx_log = [0x04, 0x01, 0x02], is_open = True,
             device_reply = (\<lambda>cmd. [0xA5])\<rparr>,
      alive = True\<rparr>"

definition low_reader :: EMGReader where
  "low_reader =
     \<lparr>device = low_device, device_port = ''COM3'', reader_fs = 250,
      reader_window_size = 50, emg_filter = EMGFilter_init 250 50 10 100 50,
      recent_points = [], samples_per_packet = 5, running = False, read_thread = None\<rparr>"


text \<open>
  A sensor with old firmware: it streams when told to start and answers no other
  command, the rate commands included. A host with that sensor; the same sensor found
  still streaming, one byte already waiting when the port is opened; and the controller
  connected to it at 250 Hz.
\<close>

definition old_firmware_port :: serial_port where
  "old_firmware_port =
     \<lparr>rx_buffer = [], tx_log = [], is_open = True,
      device_reply = (\<lambda>cmd. if cmd = [0x01] then [0xA5] else [])\<rparr>"

definition old_sensor :: host where
  "old_sensor = \<lparr>found_devs = [''COM3''], open_serial = (\<lambda>port. old_firmware_port)\<rparr>"

definition old_sensor_streaming :: host where
  "old_sensor_streaming =
     \<lparr>found_devs = [''COM3''],
      open_serial = (\<lambda>port. old_firmware_port\<lparr>rx_buffer := [0xA5]\<rparr>)\<rparr>"

definition old_device :: iFocus where
  "old_device =
     \<lparr>status = IDLE, socket_flag = None, save_data = [], parser_buffer = [],
      with_q = True, bdf_flag = False, fs_eeg = 250, fs_imu = 50, name = ''COM3'',
      dev = \<lparr>rx_buffer = [0xA5], tx_log = [0x04, 0x01, 0x02], is_open = True,
             device_reply = (\<lambda>cmd. if cmd = [0x01] then [0xA5] else [])\<rparr>,
      alive = True\<rparr>"

section \<open>Facts about the byte arithmetic\<close>

lemma from_bytes_little_3:
  "from_bytes_little [a, b, c] = uint a + 256 * uint b + 65536 * uint c"
  by (simp add: from_bytes_little_def)

lemma from_bytes_little_4:
  "from_bytes_little [a, b, c, d] =
     uint a + 256 * uint b + 65536 * uint c + 16777216 * uint d"
  by (simp add: from_bytes_little_def)

lemma uint_byte_less: "uint (b :: byte) < 256"
  using uint_bounded [of b] by simp

lemma u24_bounds:
  "0 \<le> uint (a :: byte) + 256 * uint (b :: byte) + 65536 * uint (c :: byte)"
  "uint (a :: byte) + 256 * uint (b :: byte) + 65536 * uint (c :: byte) < 2 ^ 24"
proof -
  show "0 \<le> uint a + 256 * uint b + 65536 * uint c"
    by (intro add_nonneg_nonneg mult_nonneg_nonneg) simp_all
  have "uint a \<le> 255" "uint b \<le> 255" "uint c \<le> 255"
    using uint_byte_less [of a] uint_byte_less [of b] uint_byte_less [of c] by simp_all
  then show "uint a + 256 * uint b + 65536 * uint c < 2 ^ 24"
    by simp
qed

lemma bit23_iff:
  assumes "0 \<le> u" "u < 2 ^ 24"
  shows "odd (u div (2 ^ 23 :: int)) = (2 ^ 23 \<le> u)"
proof (cases "u < 2 ^ 23")
  case True
  with assms have "u div 2 ^ 23 = 0" by (simp add: div_pos_pos_trivial)
  with True show ?thesis by simp
next
  case False
  define r where "r = u - 2 ^ 23"
  have r: "0 \<le> r" "r < 2 ^ 23" using False assms by (simp_all add: r_def)
  have "u = r + 1 * 2 ^ 23" by (simp add: r_def)
  then have "u div 2 ^ 23 = r div 2 ^ 23 + 1"
    by (metis div_mult_self1 power_not_zero zero_neq_numeral add.commute div_mult_self3)
  also have "\<dots> = 1" using r by (simp add: div_pos_pos_trivial)
  finally show ?thesis using False by simp
qed

lemma sign_test:
  assumes "0 \<le> u" "u < 2 ^ 24"
  shows "(u AND (0x00800000 :: int) \<noteq> 0) = (2 ^ 23 \<le> u)"
proof -
  have e: "(0x00800000 :: int) = 2 ^ 23" by simp
  have "(u AND (2 ^ 23 :: int) = 0) = (\<not> bit u 23)"
    by (rule and_exp_eq_0_iff_not_bit)
  moreover have "bit u 23 = odd (u div 2 ^ 23)" by (simp add: bit_iff_odd)
  ultimately show ?thesis unfolding e using bit23_iff [OF assms] by simp
qed

lemma or_high_byte:
  assumes "0 \<le> u" "u < 2 ^ 24"
  shows "u OR (0xFF000000 :: int) = u + 0xFF000000"
proof -
  have t: "take_bit 24 u = u" using assms by (simp add: take_bit_int_eq_self)
  have p: "(0xFF000000 :: int) = push_bit 24 255" by (simp add: push_bit_eq_mult)
  have c1: "concat_bit 24 u 255 = take_bit 24 u OR push_bit 24 255"
    by (simp only: concat_bit_def)
  have c2: "concat_bit 24 u 255 = take_bit 24 u + push_bit 24 255"
    by (simp only: concat_bit_eq)
  have "take_bit 24 u OR push_bit 24 (255 :: int) = take_bit 24 u + push_bit 24 255"
    by (simp only: c1 [symmetric] c2)
  then have "u OR push_bit 24 (255 :: int) = u + push_bit 24 255"
    by (simp only: t)
  then show ?thesis by (simp only: p)
qed

lemma byte_of_int: "uint (word_of_int x :: byte) = x mod 256"
  by (simp add: uint_word_of_int take_bit_eq_mod)

lemma to_bytes_roundtrip:
  assumes "0 \<le> v" "v < 256 ^ 4"
  shows "\<exists>bs. to_bytes_little 4 v = Inr bs \<and> length bs = 4 \<and> from_bytes_little bs = v"
proof -
  define a where "a = v div 256"
  define b where "b = a div 256"
  define c where "c = b div 256"
  have l: "[0..<4] = [0, 1, 2, 3]" by (simp add: upt_rec)
  have d2: "v div 65536 = b" unfolding b_def a_def
    using zdiv_zmult2_eq [of 256 v 256] by simp
  have d3: "v div 16777216 = c" unfolding c_def b_def a_def
    using zdiv_zmult2_eq [of 65536 v 256] zdiv_zmult2_eq [of 256 "v div 256" 256] by simp
  have "c < 256" "0 \<le> c" unfolding d3 [symmetric] using assms by simp_all
  then have cm: "c mod 256 = c" by simp
  have v: "v = v mod 256 + 256 * a" by (simp add: a_def)
  have a: "a = a mod 256 + 256 * b" by (simp add: b_def)
  have b: "b = b mod 256 + 256 * c" by (simp add: c_def)
  have "v mod 256 + 256 * (a mod 256) + 65536 * (b mod 256) + 16777216 * (c mod 256)
          = v mod 256 + 256 * (a mod 256 + 256 * (b mod 256 + 256 * c))"
    using cm by simp
  also have "\<dots> = v" using v a b by simp
  finally have "v mod 256 + 256 * (a mod 256) + 65536 * (b mod 256)
                  + 16777216 * (c mod 256) = v" .
  moreover have "to_bytes_little 4 v =
      Inr [word_of_int v, word_of_int a, word_of_int b, word_of_int c]"
    using assms d2 d3 by (simp add: to_bytes_little_def l a_def)
  ultimately show ?thesis
    by (simp add: from_bytes_little_4 byte_of_int)
qed

lemma sign_extend_word:
  assumes "2 ^ 23 \<le> u" "u < 2 ^ 24"
  shows "sint (word_of_int (u + 0xFF000000) :: 32 word) = u - 2 ^ 24"
proof -
  have e: "(word_of_int (u + 0xFF000000) :: 32 word) = word_of_int (u - 2 ^ 24)"
    by (simp add: word_of_int_eq_iff take_bit_eq_mod)
  have s: "sint (word_of_int (u - 2 ^ 24) :: 32 word) = u - 2 ^ 24"
  proof -
    have "- (2 ^ 31) \<le> u - 2 ^ 24" "u - 2 ^ 24 < (2 ^ 31 :: int)"
      using assms by simp_all
    then have "signed_take_bit 31 (u - 2 ^ 24) = u - 2 ^ 24"
      by (intro signed_take_bit_int_eq_self) simp_all
    then show ?thesis by (simp only: sint_sbintrunc' len_of_numeral_defs) simp
  qed
  show ?thesis by (simp only: e s)
qed

lemma take3_drop:
  assumes "3 * i + 2 < length xs"
  shows "take 3 (drop (i * 3) xs) = [xs ! (3 * i), xs ! (3 * i + 1), xs ! (3 * i + 2)]"
proof -
  have n: "(3 :: nat) = Suc (Suc (Suc 0))" by simp
  have "length (drop (i * 3) xs) \<ge> 3" using assms by simp
  then obtain a b c rest where d: "drop (i * 3) xs = a # b # c # rest"
    by (metis n Suc_le_length_iff)
  have "a = drop (i * 3) xs ! 0" "b = drop (i * 3) xs ! 1" "c = drop (i * 3) xs ! 2"
    by (simp_all add: d)
  then have "a = xs ! (3 * i)" "b = xs ! (3 * i + 1)" "c = xs ! (3 * i + 2)"
    using assms by (simp_all add: mult.commute)
  then show ?thesis by (simp add: d)
qed

lemma emg_value_decodes:
  assumes "3 * i + 2 < length emg_bytes"
  shows "emg_value emg_bytes i = Inr (real_of_int (raw_int emg_bytes i) * 0.0240405)"
proof -
  define u where "u = uint (emg_bytes ! (3 * i)) + 256 * uint (emg_bytes ! (3 * i + 1))
                      + 65536 * uint (emg_bytes ! (3 * i + 2))"
  have val: "from_bytes_little (take 3 (drop (i * 3) emg_bytes)) = u"
    by (simp add: take3_drop [OF assms] from_bytes_little_3 u_def)
  have ub: "0 \<le> u" "u < 2 ^ 24" unfolding u_def by (rule u24_bounds)+
  have raw: "raw_int emg_bytes i = (if 2 ^ 23 \<le> u then u - 2 ^ 24 else u)"
    by (simp add: raw_int_def u_def Let_def)
  show ?thesis
  proof (cases "2 ^ 23 \<le> u")
    case False
    then have "\<not> (u AND 0x00800000 \<noteq> 0)" using sign_test [OF ub] by simp
    then show ?thesis using False raw val by (simp add: emg_value_def)
  next
    case True
    then have t: "u AND 0x00800000 \<noteq> 0" using sign_test [OF ub] by simp
    have o: "u OR 0xFF000000 = u + 0xFF000000" by (rule or_high_byte [OF ub])
    have "0 \<le> u + 0xFF000000" "u + 0xFF000000 < 256 ^ 4" using ub by simp_all
    then obtain bs where bs: "to_bytes_little 4 (u + 0xFF000000) = Inr bs"
        "length bs = 4" "from_bytes_little bs = u + 0xFF000000"
      using to_bytes_roundtrip by blast
    have "unpack_le_i32 bs = Inr (u - 2 ^ 24)"
      using bs sign_extend_word [OF True ub(2)] by (simp add: unpack_le_i32_def)
    then show ?thesis using True raw val t o bs by (simp add: emg_value_def)
  qed
qed

lemma emg_loop_map:
  assumes "\<forall>i \<in> set idx. emg_value emg_bytes i = Inr (f i)"
  shows "emg_loop emg_bytes idx acc = Inr (acc @ map f idx)"
  using assms by (induction idx arbitrary: acc) simp_all

lemma raw_int_take:
  assumes "3 * i + 2 < n"
  shows "raw_int (take n packet) i = raw_int packet i"
  using assms by (simp add: raw_int_def)

section \<open>Facts about the controller\<close>

lemma drain_queue_empty: "drain_queue q = []"
  by (induction q) simp_all

lemma recv_finish_clears: "save_data (recv_finish env d) = [] \<and> parser_buffer (recv_finish env d) = []"
  by (simp add: recv_finish_def Let_def clear_buffer_def drain_queue_empty split: option.splits)

lemma recv_data_clears:
  "start_data_fails env = None \<Longrightarrow> recv_data env parse evs d = Some d1 \<Longrightarrow> save_data d1 = [] \<and> parser_buffer d1 = []"
  by (auto simp: recv_data_def recv_finish_clears split: option.splits)

lemma recv_finish_terminating:
  "status d = TERMINATE_START \<Longrightarrow> status (recv_finish env d) = TERMINATE_START
     \<and> socket_flag (recv_finish env d) = socket_flag d \<and> alive (recv_finish env d) = alive d"
  by (simp add: recv_finish_def Let_def clear_buffer_def)

lemma terminate_thread_fields:
  "status (terminate_thread d) = TERMINATE" "\<not> alive (terminate_thread d)"
  "socket_flag (terminate_thread d) = socket_flag d"
  by (simp_all add: terminate_thread_def)

lemma thread_reacts_terminate:
  assumes "alive d"
  shows "status (thread_reacts env was (d\<lparr>status := TERMINATE_START\<rparr>)) = TERMINATE
       \<and> \<not> alive (thread_reacts env was (d\<lparr>status := TERMINATE_START\<rparr>))
       \<and> socket_flag (thread_reacts env was (d\<lparr>status := TERMINATE_START\<rparr>)) = socket_flag d"
proof -
  let ?d = "d\<lparr>status := TERMINATE_START\<rparr>"
  have s: "status ?d = TERMINATE_START" by simp
  have r: "run_loop env (recv_finish env ?d) = terminate_thread (recv_finish env ?d)"
    using recv_finish_terminating [OF s, of env] by (simp add: run_loop_def)
  have r2: "run_loop env ?d = terminate_thread ?d" by (simp add: run_loop_def)
  show ?thesis
    using assms r r2 recv_finish_terminating [OF s, of env]
    by (simp add: thread_reacts_def terminate_thread_fields)
qed

lemma close_dev_alive:
  assumes "alive d"
  shows "\<exists>d'. close_dev env d = Returned d' \<and> status d' = TERMINATE \<and> \<not> alive d'
            \<and> socket_flag d' = socket_flag d"
proof (cases "status d = TERMINATE")
  case True
  then show ?thesis by (simp add: close_dev_def)
next
  case False
  then show ?thesis
    using thread_reacts_terminate [OF assms, of env "status d"]
    by (simp add: close_dev_def Let_def)
qed

lemma close_dev_never_raises: "close_dev env d \<noteq> Raised e d'"
  by (simp add: close_dev_def Let_def)

lemma check_dev_status_fault:
  assumes "socket_flag d = Some reason"
  shows "\<exists>d'. check_dev_status env d = Raised (Exception reason) d'
           \<and> socket_flag d' = Some reason \<and> \<not> alive d'
           \<and> (alive d \<longrightarrow> close_dev env d = Returned d' \<and> status d' = TERMINATE)
           \<and> (\<not> alive d \<longrightarrow> d' = d)"
proof (cases "alive d")
  case True
  from close_dev_alive [OF True, of env] obtain d' where
    d': "close_dev env d = Returned d'" "status d' = TERMINATE" "\<not> alive d'"
        "socket_flag d' = socket_flag d" by blast
  then show ?thesis using assms True by (simp add: check_dev_status_def str_flag_def)
next
  case False
  then show ?thesis using assms by (simp add: check_dev_status_def str_flag_def)
qed

section \<open>Facts about the session\<close>

lemma running_join_read_thread: "running (join_read_thread rd) = running rd"
  by (simp add: join_read_thread_def split: option.splits bool.splits)

lemma start_reading_sets_running: "start_reading env rd = Returned rd1 \<Longrightarrow> running rd1"
  by (cases "running rd") (auto simp: start_reading_def Let_def split: outcome.splits)

lemma stop_reading_clears_running: "stop_reading env rd = Returned rd1 \<Longrightarrow> \<not> running rd1"
  by (cases "running rd") (auto simp: stop_reading_def Let_def running_join_read_thread split: outcome.splits)

lemma sample_rates_cases:
  "sample_rates v = (if v = ''low'' then (250, 50) else (500, 100))"
  by (simp add: sample_rates_def DEFAULT_FS_EEG_LOW_def DEFAULT_FS_IMU_LOW_def
      DEFAULT_FS_EEG_HIGH_def DEFAULT_FS_IMU_HIGH_def)

lemma run_loop_rates: "fs_eeg (run_loop env d) = fs_eeg d \<and> fs_imu (run_loop env d) = fs_imu d"
  by (simp add: run_loop_def terminate_thread_def split: option.splits)

lemma set_frequency_rates:
  "set_frequency None d = Inr d1 \<Longrightarrow> fs_eeg d1 = fs_eeg d \<and> fs_imu d1 = fs_eeg d div 5"
  by (auto simp: set_frequency_def Let_def split: if_splits sum.splits)

lemma iFocus_init_rates:
  assumes "iFocus_init h env (sample_rates v) = Inr d"
  shows "(fs_eeg d, fs_imu d) = sample_rates v"
proof -
  from assms obtain d0 d1 p where
    s: "set_frequency None d0 = Inr d1" and f: "fs_eeg d0 = fst (sample_rates v)"
    and d: "d = run_loop env (d1\<lparr>dev := p, status := IDLE_START, socket_flag := None,
                                  name := hd (found_devs h), alive := True\<rparr>)"
    by (auto simp: iFocus_init_def find_devs_def Let_def split: sum.splits if_splits)
  from set_frequency_rates [OF s] f d show ?thesis
    by (simp add: run_loop_rates sample_rates_cases)
qed

lemma window_size_of_div: "window_size_of rate = rate div 5"
proof -
  have e: "real rate * DEFAULT_WINDOW_DURATION = real rate / 5"
    by (simp add: DEFAULT_WINDOW_DURATION_def)
  have f: "\<lfloor>real rate / 5\<rfloor> = int (rate div 5)"
    by (metis floor_divide_of_nat_eq of_nat_numeral)
  show ?thesis unfolding window_size_of_def e f by simp
qed

lemma foldl_deque_append:
  assumes "length w \<le> cap"
  shows "foldl (deque_append cap) w xs = drop (length (w @ xs) - cap) (w @ xs)"
  using assms
proof (induction xs arbitrary: w)
  case Nil
  then show ?case by simp
next
  case (Cons x xs)
  show ?case
  proof (cases "length w = cap")
    case True
    have da: "deque_append cap w x = tl (w @ [x])" using True by (simp add: deque_append_def)
    have l: "length (tl (w @ [x])) \<le> cap" using True by simp
    have e: "tl (w @ [x]) @ xs = drop 1 (w @ x # xs)"
      by (cases w) (simp_all add: drop_Suc)
    have n1: "length (tl (w @ [x]) @ xs) - cap = length xs" using True by simp
    have n2: "length (w @ x # xs) - cap = length xs + 1" using True by simp
    have "foldl (deque_append cap) w (x # xs) = foldl (deque_append cap) (tl (w @ [x])) xs"
      using da by simp
    also have "\<dots> = drop (length (tl (w @ [x]) @ xs) - cap) (tl (w @ [x]) @ xs)"
      using Cons.IH [OF l] .
    also have "\<dots> = drop (length xs) (tl (w @ [x]) @ xs)"
      by (simp only: n1)
    also have "\<dots> = drop (length xs) (drop 1 (w @ x # xs))"
      by (simp only: e)
    also have "\<dots> = drop (length xs + 1) (w @ x # xs)"
      by (simp only: drop_drop)
    also have "\<dots> = drop (length (w @ x # xs) - cap) (w @ x # xs)"
      by (simp only: n2)
    finally show ?thesis .
  next
    case False
    with Cons.prems have lt: "length w < cap" by simp
    then have da: "deque_append cap w x = w @ [x]" by (simp add: deque_append_def)
    have l: "length (w @ [x]) \<le> cap" using lt by simp
    show ?thesis using Cons.IH [OF l] da by simp
  qed
qed

lemma process_emg_data_window:
  "process_emg_data lib rd = Inr rd1 \<Longrightarrow>
     recent_points rd1 = recent_points rd \<and> reader_window_size rd1 = reader_window_size rd"
  by (auto simp: process_emg_data_def split: if_splits sum.splits)

lemma admit_values_window:
  "admit_values lib rd vals = Inr rd1 \<Longrightarrow>
     recent_points rd1 = foldl (deque_append (reader_window_size rd)) (recent_points rd) vals
     \<and> reader_window_size rd1 = reader_window_size rd"
proof (induction vals arbitrary: rd)
  case Nil
  then show ?case by simp
next
  case (Cons val vals)
  let ?rd1 = "rd\<lparr>recent_points := deque_append (reader_window_size rd) (recent_points rd) val\<rparr>"
  show ?case
  proof (cases "length (recent_points ?rd1) \<ge> reader_window_size ?rd1")
    case True
    with Cons.prems obtain rd2 where p: "process_emg_data lib ?rd1 = Inr rd2"
      and a: "admit_values lib rd2 vals = Inr rd1"
      by (auto simp: Let_def split: sum.splits)
    from process_emg_data_window [OF p] Cons.IH [OF a] show ?thesis by simp
  next
    case False
    with Cons.prems have a: "admit_values lib ?rd1 vals = Inr rd1"
      by (auto simp: Let_def)
    from Cons.IH [OF a] show ?thesis by simp
  qed
qed

lemma constructed_reader:
  assumes "EMGReader_init h env lc hc n v = Inr rd"
  shows "reader_window_size rd = reader_fs rd div 5 \<and> recent_points rd = []
       \<and> window_size (emg_filter rd) = reader_window_size rd
       \<and> fs (emg_filter rd) = reader_fs rd \<and> reader_fs rd = fst (sample_rates v)
       \<and> \<not> running rd"
proof -
  from assms obtain d where d: "iFocus_init h env (sample_rates v) = Inr d"
    and r: "rd = \<lparr>device = d, device_port = name d, reader_fs = fs_eeg d,
                  reader_window_size = window_size_of (fs_eeg d),
                  emg_filter = EMGFilter_init (fs_eeg d) (window_size_of (fs_eeg d)) lc hc n,
                  recent_points = [], samples_per_packet = 5,
                  running = False, read_thread = None\<rparr>"
    by (auto simp: EMGReader_init_def Let_def split: sum.splits)
  have "fs_eeg d = fst (sample_rates v)" using iFocus_init_rates [OF d] by (metis fst_conv)
  then show ?thesis using r by (simp add: window_size_of_div EMGFilter_init_def)
qed




section \<open>Facts about the filter pipeline\<close>

lemma length_convolve_full: "length (convolve_full a v) = length a + length v - 1"
  by (simp add: convolve_full_def)

lemma length_same_length_convolution:
  assumes "0 < length v"
  shows "length (same_length_convolution a v) = length a"
proof -
  have "(length v - 1) div 2 \<le> length v - 1" by simp
  then have "length a \<le> length a + length v - 1 - (length v - 1) div 2"
    using assms by linarith
  then show ?thesis
    by (simp add: same_length_convolution_def length_convolve_full)
qed

lemma np_convolve_same_no_swap:
  assumes "0 < length v" "length v \<le> length a"
  shows "np_convolve_same a v = Inr (same_length_convolution a v)"
  using assms by (auto simp: np_convolve_same_def same_length_convolution_def)

lemma bandpass_length:
  assumes "\<And>ba x y. filtfilt lib ba x = Inr y \<Longrightarrow> length y = length x"
    and "bandpass_filter lib flt data = Inr out"
  shows "length out = length data"
  using assms by (auto simp: bandpass_filter_def Let_def split: if_splits sum.splits)

lemma notch_length:
  assumes "\<And>ba x y. filtfilt lib ba x = Inr y \<Longrightarrow> length y = length x"
    and "notch_filter lib flt data = Inr out"
  shows "length out = length data"
  using assms by (auto simp: notch_filter_def Let_def split: if_splits sum.splits)

lemma np_convolve_same_length:
  "np_convolve_same a v = Inr c \<Longrightarrow> length c = max (length a) (length v)"
proof -
  assume h: "np_convolve_same a v = Inr c"
  show ?thesis
  proof (cases "length v > length a")
    case True
    with h have c: "c = same_length_convolution v a" and p: "0 < length a"
      by (auto simp: np_convolve_same_def same_length_convolution_def split: if_splits)
    show ?thesis using True length_same_length_convolution [OF p, of v] c by simp
  next
    case False
    with h have c: "c = same_length_convolution a v" and p: "0 < length v"
      by (auto simp: np_convolve_same_def same_length_convolution_def split: if_splits)
    show ?thesis using False length_same_length_convolution [OF p, of a] c by simp
  qed
qed

lemma envelope_length:
  "compute_rms_envelope flt data = Inr out \<Longrightarrow> length out = max (length data) (window_size flt)"
  by (auto simp: compute_rms_envelope_def Let_def split: sum.splits dest: np_convolve_same_length)

lemma process_data_total:
  assumes b: "\<And>k lo hi. \<exists>c. butter lib k lo hi = Inr c"
    and i: "\<And>w q. \<exists>c. iirnotch lib w q = Inr c"
    and f: "\<And>ba x. \<exists>y. filtfilt lib ba x = Inr y \<and> length y = length x"
    and fs: "fs flt \<noteq> 0" and ws: "0 < window_size flt" and raw: "raw \<noteq> []"
  shows "\<exists>flt1. process_data lib flt raw = Inr flt1 \<and> fs flt1 = fs flt
            \<and> window_size flt1 = window_size flt"
proof -
  let ?f1 = "flt\<lparr>raw_data := raw\<rparr>"
  obtain c where c: "butter lib FILTER_ORDER (2 * lowcut ?f1 / real (fs ?f1))
                        (2 * highcut ?f1 / real (fs ?f1)) = Inr c" using b by blast
  obtain bp where bp: "filtfilt lib c raw = Inr bp" "length bp = length raw" using f by blast
  have 1: "bandpass_filter lib ?f1 raw = Inr bp"
    using fs c bp by (simp add: bandpass_filter_def Let_def)
  let ?f2 = "?f1\<lparr>bandpassed_data := bp\<rparr>"
  obtain c2 where c2: "iirnotch lib (2 * notch_freq ?f2 / real (fs ?f2)) (quality_factor ?f2) = Inr c2"
    using i by blast
  obtain nt where nt: "filtfilt lib c2 bp = Inr nt" "length nt = length bp" using f by blast
  have 2: "notch_filter lib ?f2 bp = Inr nt"
    using fs c2 nt by (simp add: notch_filter_def Let_def)
  let ?f3 = "?f2\<lparr>notched_data := nt\<rparr>"
  have ne: "nt \<noteq> []" using nt bp raw by auto
  have "\<exists>cv. np_convolve_same (map (\<lambda>x. x ^ 2) (map abs nt))
            (replicate (window_size ?f3) (1 / real (window_size ?f3))) = Inr cv"
    using ne ws by (auto simp: np_convolve_same_def)
  then obtain cv where cv: "np_convolve_same (map (\<lambda>x. x ^ 2) (map abs nt))
            (replicate (window_size ?f3) (1 / real (window_size ?f3))) = Inr cv" by blast
  have 3: "compute_rms_envelope ?f3 nt = Inr (map sqrt cv)"
    using cv by (simp add: compute_rms_envelope_def Let_def)
  have "process_data lib flt raw = Inr (?f3\<lparr>envelope_data := map sqrt cv\<rparr>)"
    using 1 2 3 by (simp add: process_data_def Let_def)
  then show ?thesis by simp
qed

lemma admit_values_total:
  assumes b: "\<And>k lo hi. \<exists>c. butter lib k lo hi = Inr c"
    and i: "\<And>w q. \<exists>c. iirnotch lib w q = Inr c"
    and f: "\<And>ba x. \<exists>y. filtfilt lib ba x = Inr y \<and> length y = length x"
    and fs: "fs (emg_filter rd) \<noteq> 0" and ws: "0 < window_size (emg_filter rd)"
    and rw: "0 < reader_window_size rd"
  shows "\<exists>rd1. admit_values lib rd vals = Inr rd1"
  using fs ws rw
proof (induction vals arbitrary: rd)
  case Nil
  then show ?case by simp
next
  case (Cons val vals)
  let ?rd1 = "rd\<lparr>recent_points := deque_append (reader_window_size rd) (recent_points rd) val\<rparr>"
  show ?case
  proof (cases "length (recent_points ?rd1) \<ge> reader_window_size ?rd1")
    case True
    then have ne: "recent_points ?rd1 \<noteq> []" using Cons.prems(3) by auto
    from process_data_total [OF b i f Cons.prems(1) Cons.prems(2) ne]
    obtain flt1 where p: "process_data lib (emg_filter rd) (recent_points ?rd1) = Inr flt1"
      "fs flt1 = fs (emg_filter rd)" "window_size flt1 = window_size (emg_filter rd)" by blast
    let ?rd2 = "?rd1\<lparr>emg_filter := flt1\<rparr>"
    have pe: "process_emg_data lib ?rd1 = Inr ?rd2"
      using True p(1) by (simp add: process_emg_data_def)
    have "\<exists>rd3. admit_values lib ?rd2 vals = Inr rd3"
      using Cons.IH [of ?rd2] p Cons.prems by simp
    then show ?thesis using True pe by (simp add: Let_def)
  next
    case False
    have "\<exists>rd3. admit_values lib ?rd1 vals = Inr rd3"
      using Cons.IH [of ?rd1] Cons.prems by simp
    then show ?thesis using False by (simp add: Let_def)
  qed
qed

section \<open>Claims\<close>

text \<open>
  C1. For every byte buffer of length at least 15, \<open>parse_packet\<close> succeeds and decodes
  each of the five EMG channels \<open>i\<close> from bytes \<open>[3i, 3i+3)\<close>: the little-endian 24-bit
  field is read in two's complement (\<open>raw_int\<close>) and multiplied by the scale factor
  0.0240405; the bytes after the first 15 are returned untouched as the IMU payload.
\<close>

theorem parse_packet_decodes:
  assumes "15 \<le> length packet"
  shows "parse_packet packet =
           Inr \<lparr>emg = map (\<lambda>i. real_of_int (raw_int packet i) * 0.0240405) [0..<5],
                imu = drop 15 packet\<rparr>"
proof -
  have "\<forall>i \<in> set [0..<5]. emg_value (take 15 packet) i
          = Inr (real_of_int (raw_int packet i) * 0.0240405)"
  proof
    fix i assume "i \<in> set [0..<5]"
    then have i: "3 * i + 2 < 15" by simp
    then have "3 * i + 2 < length (take 15 packet)" using assms by simp
    then show "emg_value (take 15 packet) i = Inr (real_of_int (raw_int packet i) * 0.0240405)"
      using emg_value_decodes [of i "take 15 packet"] raw_int_take [OF i] by simp
  qed
  then have "emg_loop (take 15 packet) [0..<5] []
               = Inr ([] @ map (\<lambda>i. real_of_int (raw_int packet i) * 0.0240405) [0..<5])"
    by (rule emg_loop_map)
  then show ?thesis using assms by (simp add: parse_packet_def)
qed

theorem parse_packet_decodes_witness:
  "15 \<le> length [0xFF, 0xFF, 0xFF, 1, 0, 0, 0, 0, 0x80, 0xFF, 0xFF, 0x7F, 0, 0, 0, 7 :: byte]
   \<and> parse_packet [0xFF, 0xFF, 0xFF, 1, 0, 0, 0, 0, 0x80, 0xFF, 0xFF, 0x7F, 0, 0, 0, 7]
       = Inr \<lparr>emg = [- 0.0240405, 0.0240405, - 8388608 * 0.0240405,
                       8388607 * 0.0240405, 0],
                imu = [7]\<rparr>"
  using parse_packet_decodes
    [of "[0xFF, 0xFF, 0xFF, 1, 0, 0, 0, 0, 0x80, 0xFF, 0xFF, 0x7F, 0, 0, 0, 7]"]
  by (simp add: raw_int_def upt_rec)

text \<open>
  C2 (as stated). The claim says that processing a window shorter than the window size
  fails with an \<open>InsufficientSamples\<close> error. It does not: on a reader whose window
  holds one sample of the hundred it needs, \<open>_process_emg_data\<close> returns normally and
  leaves the reader as it was.
\<close>

theorem short_window_returns_silently:
  "length (recent_points (idle_reader\<lparr>recent_points := [1]\<rparr>))
     < reader_window_size (idle_reader\<lparr>recent_points := [1]\<rparr>)
   \<and> process_emg_data unit_gain (idle_reader\<lparr>recent_points := [1]\<rparr>)
       = Inr (idle_reader\<lparr>recent_points := [1]\<rparr>)"
  by (simp add: process_emg_data_def idle_reader_def)

text \<open>
  C2 (amended). For every window shorter than the configured window size,
  \<open>_process_emg_data\<close> returns normally without running the filter pipeline: the
  reader, its window and the published filter outputs are unchanged, and no error is
  raised.
\<close>

theorem process_emg_data_skips_short_window:
  assumes "length (recent_points rd) < reader_window_size rd"
  shows "process_emg_data lib rd = Inr rd"
  using assms by (simp add: process_emg_data_def)

theorem process_emg_data_skips_short_window_witness:
  "length (recent_points (idle_reader\<lparr>recent_points := [3, 4]\<rparr>))
     < reader_window_size (idle_reader\<lparr>recent_points := [3, 4]\<rparr>)
   \<and> process_emg_data unit_gain (idle_reader\<lparr>recent_points := [3, 4]\<rparr>)
       = Inr (idle_reader\<lparr>recent_points := [3, 4]\<rparr>)"
proof -
  have h: "length (recent_points (idle_reader\<lparr>recent_points := [3, 4]\<rparr>))
             < reader_window_size (idle_reader\<lparr>recent_points := [3, 4]\<rparr>)"
    by (simp add: idle_reader_def)
  show ?thesis
    using h process_emg_data_skips_short_window [OF h, of unit_gain] by simp
qed

text \<open>
  C3. For every window the pipeline accepts (one at least as long as the window size,
  the only kind \<open>_process_emg_data\<close> passes on), once \<open>process_data\<close> has completed the
  four sequences \<open>raw_data\<close>, \<open>bandpassed_data\<close>, \<open>notched_data\<close> and \<open>envelope_data\<close>
  all have the length of the input window. The zero-phase filter of the library is
  taken to return as many samples as it is given.
\<close>

theorem process_data_equal_lengths:
  assumes lib: "\<And>ba x y. filtfilt lib ba x = Inr y \<Longrightarrow> length y = length x"
    and len: "window_size flt \<le> length raw"
    and run: "process_data lib flt raw = Inr flt1"
  shows "length (raw_data flt1) = length raw \<and> length (bandpassed_data flt1) = length raw
       \<and> length (notched_data flt1) = length raw \<and> length (envelope_data flt1) = length raw"
proof -
  from run obtain bp nt env where
    bp: "bandpass_filter lib (flt\<lparr>raw_data := raw\<rparr>) raw = Inr bp"
    and nt: "notch_filter lib (flt\<lparr>raw_data := raw, bandpassed_data := bp\<rparr>) bp = Inr nt"
    and env: "compute_rms_envelope
                (flt\<lparr>raw_data := raw, bandpassed_data := bp, notched_data := nt\<rparr>) nt = Inr env"
    and f: "flt1 = flt\<lparr>raw_data := raw, bandpassed_data := bp, notched_data := nt,
                      envelope_data := env\<rparr>"
    by (auto simp: process_data_def Let_def split: sum.splits)
  have 1: "length bp = length raw" using bandpass_length [OF lib bp] .
  have 2: "length nt = length raw" using notch_length [OF lib nt] 1 by simp
  have 3: "length env = length raw" using envelope_length [OF env] 2 len by simp
  show ?thesis using 1 2 3 f by simp
qed

theorem process_data_equal_lengths_witness:
  "window_size (EMGFilter_init 500 2 10 100 50) \<le> length [1, 0, 1 :: real]
   \<and> process_data unit_gain (EMGFilter_init 500 2 10 100 50) [1, 0, 1]
       = Inr ((EMGFilter_init 500 2 10 100 50)
                \<lparr>raw_data := [1, 0, 1], bandpassed_data := [1, 0, 1],
                 notched_data := [1, 0, 1],
                 envelope_data := [sqrt (1 / 2), sqrt (1 / 2), sqrt (1 / 2)]\<rparr>)
   \<and> length [sqrt (1 / 2), sqrt (1 / 2), sqrt (1 / 2) :: real] = length [1, 0, 1 :: real]"
proof -
  have lib: "\<And>ba x y. filtfilt unit_gain ba x = Inr y \<Longrightarrow> length y = length x"
    by (simp add: unit_gain_def)
  have len: "window_size (EMGFilter_init 500 2 10 100 50) \<le> length [1, 0, 1 :: real]"
    by (simp add: EMGFilter_init_def)
  have run: "process_data unit_gain (EMGFilter_init 500 2 10 100 50) [1, 0, 1]
       = Inr ((EMGFilter_init 500 2 10 100 50)
                \<lparr>raw_data := [1, 0, 1], bandpassed_data := [1, 0, 1],
                 notched_data := [1, 0, 1],
                 envelope_data := [sqrt (1 / 2), sqrt (1 / 2), sqrt (1 / 2)]\<rparr>)"
    by (simp add: process_data_def bandpass_filter_def notch_filter_def unit_gain_def
        compute_rms_envelope_def EMGFilter_init_def np_convolve_same_def convolve_full_def
        upt_rec Let_def)
  show ?thesis
    using len run process_data_equal_lengths [OF lib len run] by simp
qed

text \<open>
  C4. The sample window has the fixed capacity \<open>int(sample_rate * 0.2)\<close>, which is
  \<open>sample_rate div 5\<close>: a reader the constructor returns has exactly that capacity for
  the rate it selected, and an empty window. Pushing \<open>capacity + k\<close> samples into the
  empty window leaves exactly the last \<open>capacity\<close> of them, in arrival order; and that
  is the window of the reader after its loop has admitted them, its capacity unchanged.
\<close>

theorem sample_window_keeps_last_capacity:
  "window_size_of rate = rate div 5
   \<and> (length xs = cap + k \<longrightarrow> foldl (deque_append cap) [] xs = drop k xs)
   \<and> (recent_points rd = [] \<and> length xs = reader_window_size rd + k
        \<and> admit_values lib rd xs = Inr rd1 \<longrightarrow> recent_points rd1 = drop k xs)
   \<and> (EMGReader_init h env lc hc n v = Inr rd0
        \<longrightarrow> reader_window_size rd0 = window_size_of (reader_fs rd0)
          \<and> reader_window_size rd0 = reader_fs rd0 div 5
          \<and> reader_fs rd0 = fst (sample_rates v) \<and> recent_points rd0 = [])
   \<and> (EMGReader_init h env lc hc n v = Inr rd0 \<and> length ys = reader_fs rd0 div 5 + j
        \<and> admit_values lib rd0 ys = Inr rd2
        \<longrightarrow> recent_points rd2 = drop j ys \<and> reader_window_size rd2 = reader_fs rd0 div 5)"
proof -
  have a: "length zs = c + m \<longrightarrow> foldl (deque_append c) [] zs = drop m zs" for c m zs
    using foldl_deque_append [of "[]" c zs] by simp
  have b: "recent_points r = [] \<and> length zs = reader_window_size r + m
        \<and> admit_values lib r zs = Inr r1
        \<longrightarrow> recent_points r1 = drop m zs \<and> reader_window_size r1 = reader_window_size r"
    for r r1 m zs
    using admit_values_window [of lib r zs r1] a [of zs "reader_window_size r" m] by auto
  have c: "EMGReader_init h env lc hc n v = Inr rd0
        \<longrightarrow> reader_window_size rd0 = window_size_of (reader_fs rd0)
          \<and> reader_window_size rd0 = reader_fs rd0 div 5
          \<and> reader_fs rd0 = fst (sample_rates v) \<and> recent_points rd0 = []"
    using constructed_reader [of h env lc hc n v rd0] by (simp add: window_size_of_div)
  have d: "EMGReader_init h env lc hc n v = Inr rd0 \<and> length ys = reader_fs rd0 div 5 + j
        \<and> admit_values lib rd0 ys = Inr rd2
        \<longrightarrow> recent_points rd2 = drop j ys \<and> reader_window_size rd2 = reader_fs rd0 div 5"
    using c b [of rd0 ys j rd2] by auto
  show ?thesis
    using window_size_of_div [of rate] a [of xs cap k] b [of rd xs k rd1] c d by blast
qed

theorem sample_window_keeps_last_capacity_witness:
  "window_size_of 500 = 100 \<and> window_size_of 250 = 50
   \<and> length [1, 0, 1 :: real] = 2 + 1
   \<and> foldl (deque_append 2) [] [1, 0, 1 :: real] = [0, 1]
   \<and> recent_points (idle_reader\<lparr>reader_window_size := 2, emg_filter := EMGFilter_init 500 2 10 100 50\<rparr>) = []
   \<and> admit_values unit_gain
        (idle_reader\<lparr>reader_window_size := 2, emg_filter := EMGFilter_init 500 2 10 100 50\<rparr>) [1, 0, 1]
       = Inr (idle_reader\<lparr>reader_window_size := 2,
                 emg_filter := (EMGFilter_init 500 2 10 100 50)
                    \<lparr>raw_data := [0, 1], bandpassed_data := [0, 1], notched_data := [0, 1],
                     envelope_data := [0, sqrt (1 / 2)]\<rparr>,
                 recent_points := [0, 1]\<rparr>)
   \<and> EMGReader_init one_sensor no_faults 10 100 50 ''high'' = Inr idle_reader
   \<and> reader_fs idle_reader = 500 \<and> reader_window_size idle_reader = 100
   \<and> recent_points idle_reader = []
   \<and> EMGReader_init one_sensor no_faults 10 100 50 ''low'' = Inr low_reader
   \<and> reader_fs low_reader = 250 \<and> reader_window_size low_reader = 50
   \<and> recent_points low_reader = []
   \<and> length (map real [0..<53]) = 50 + 3
   \<and> (\<exists>rd2. admit_values unit_gain low_reader (map real [0..<53]) = Inr rd2
          \<and> recent_points rd2 = drop 3 (map real [0..<53])
          \<and> reader_window_size rd2 = 50)"
proof -
  let ?rd = "idle_reader\<lparr>reader_window_size := 2, emg_filter := EMGFilter_init 500 2 10 100 50\<rparr>"
  let ?rd1 = "idle_reader\<lparr>reader_window_size := 2,
                 emg_filter := (EMGFilter_init 500 2 10 100 50)
                    \<lparr>raw_data := [0, 1], bandpassed_data := [0, 1], notched_data := [0, 1],
                     envelope_data := [0, sqrt (1 / 2)]\<rparr>,
                 recent_points := [0, 1]\<rparr>"
  let ?ys = "map real [0..<53]"
  have e: "recent_points ?rd = []" by (simp add: idle_reader_def)
  have l: "length [1, 0, 1 :: real] = reader_window_size ?rd + 1" by simp
  have r: "admit_values unit_gain ?rd [1, 0, 1] = Inr ?rd1"
    by (simp add: idle_reader_def deque_append_def process_emg_data_def process_data_def
        bandpass_filter_def notch_filter_def unit_gain_def compute_rms_envelope_def
        EMGFilter_init_def np_convolve_same_def convolve_full_def upt_rec Let_def)
  have ih: "EMGReader_init one_sensor no_faults 10 100 50 ''high'' = Inr idle_reader"
    by (simp add: EMGReader_init_def iFocus_init_def find_devs_def one_sensor_def sample_rates_def
      DEFAULT_FS_EEG_HIGH_def DEFAULT_FS_IMU_HIGH_def set_frequency_def sock_set_frequency_def
      sock_fs_def serial_write_def read_all_def answering_port_def connect_socket_def
      start_data_def stop_recv_def run_loop_def no_faults_def idle_reader_def idle_device_def
      window_size_of_def DEFAULT_WINDOW_DURATION_def Let_def)
  have il: "EMGReader_init one_sensor no_faults 10 100 50 ''low'' = Inr low_reader"
    by (simp add: EMGReader_init_def iFocus_init_def find_devs_def one_sensor_def sample_rates_def
      DEFAULT_FS_EEG_LOW_def DEFAULT_FS_IMU_LOW_def set_frequency_def sock_set_frequency_def
      sock_fs_def serial_write_def read_all_def answering_port_def connect_socket_def
      start_data_def stop_recv_def run_loop_def no_faults_def low_reader_def low_device_def
      window_size_of_def DEFAULT_WINDOW_DURATION_def Let_def)
  have fh: "reader_fs idle_reader = 500" by (simp add: idle_reader_def)
  have fl: "reader_fs low_reader = 250" by (simp add: low_reader_def)
  have ly: "length ?ys = reader_fs low_reader div 5 + 3" by (simp add: fl)
  have "\<exists>rd2. admit_values unit_gain low_reader ?ys = Inr rd2"
    by (rule admit_values_total)
       (simp_all add: unit_gain_def low_reader_def EMGFilter_init_def)
  then obtain rd2 where a: "admit_values unit_gain low_reader ?ys = Inr rd2" by blast
  note small = sample_window_keeps_last_capacity
      [where rate = 500 and xs = "[1, 0, 1]" and cap = 2 and k = 1 and rd = ?rd
         and lib = unit_gain and ?rd1.0 = ?rd1 and h = one_sensor and env = no_faults
         and lc = 10 and hc = 100 and n = 50 and v = "''high''" and ?rd0.0 = idle_reader
         and ys = "[]" and j = 0 and ?rd2.0 = idle_reader]
  note low = sample_window_keeps_last_capacity
      [where rate = 250 and xs = "[1, 0, 1]" and cap = 2 and k = 1 and rd = ?rd
         and lib = unit_gain and ?rd1.0 = ?rd1 and h = one_sensor and env = no_faults
         and lc = 10 and hc = 100 and n = 50 and v = "''low''" and ?rd0.0 = low_reader
         and ys = ?ys and j = 3 and ?rd2.0 = rd2]
  have w5: "window_size_of 500 = 100" using small by simp
  have w2: "window_size_of 250 = 50" using low by simp
  have l3: "length [1, 0, 1 :: real] = 2 + 1" by simp
  have fd: "foldl (deque_append 2) [] [1, 0, 1 :: real] = [0, 1]" using small by simp
  have hw: "reader_window_size idle_reader = 100 \<and> recent_points idle_reader = []"
    using small ih fh by simp
  have lw: "reader_window_size low_reader = 50 \<and> recent_points low_reader = []"
    using low il fl by simp
  have l53: "length ?ys = 50 + 3" by simp
  have ad: "recent_points rd2 = drop 3 ?ys \<and> reader_window_size rd2 = 50"
    using low il ly a fl by simp
  have ex: "\<exists>rd2. admit_values unit_gain low_reader ?ys = Inr rd2
          \<and> recent_points rd2 = drop 3 ?ys \<and> reader_window_size rd2 = 50"
    using a ad by blast
  from w5 w2 l3 fd e r ih fh hw il fl lw l53 ex show ?thesis by blast
qed

text \<open>
  C5. The claim says that on leaving \<open>SIGNAL\<close> the end-of-stream sentinel is left on the
  frame queue. The code puts the sentinel and then drains the whole queue at once, the
  sentinel and every unread frame with it. Here the controller receives one frame and is
  then told to stop: when the receive loop ends the queue holds that frame, and when
  \<open>__recv_data\<close> returns the queue is empty (the parser buffer is cleared, as claimed).
\<close>

theorem recv_data_drains_sentinel:
  "map_option save_data
     (recv_loop one_frame [Recv [0x01], StatusWrite IDLE_START]
        (idle_device\<lparr>dev := start_data (dev idle_device), status := SIGNAL\<rparr>))
     = Some [Some [[[1], [2], [3], [4], [5], [0, 0, 0]]]]
   \<and> map_option save_data
       (recv_data no_faults one_frame [Recv [0x01], StatusWrite IDLE_START]
          (idle_device\<lparr>status := SIGNAL_START\<rparr>))
     = Some []
   \<and> map_option parser_buffer
       (recv_data no_faults one_frame [Recv [0x01], StatusWrite IDLE_START]
          (idle_device\<lparr>status := SIGNAL_START\<rparr>))
     = Some []"
  by (simp add: recv_data_def no_faults_def one_frame_def idle_device_def recv_finish_def
      clear_buffer_def start_data_def stop_recv_def serial_write_def read_all_def Let_def)

text \<open>
  C6 (as stated). The claim says that \<open>close\<close>, too, first checks the stored fatal-error
  reason and fails with it. It does not: on a controller that stores a reason,
  \<open>close_dev\<close> returns normally.
\<close>

theorem close_dev_ignores_stored_fault:
  "socket_flag faulted_device = Some ''Data transmission error: device disconnected''
   \<and> close_dev no_faults faulted_device = Returned faulted_device"
  by (simp add: faulted_device_def idle_device_def close_dev_def)

text \<open>
  C6 (amended). \<open>start_acquisition\<close> and \<open>stop_acquisition\<close> first check for a stored
  fatal-error reason; if one is set they force-terminate the device (by \<open>close_dev\<close>,
  when its thread is still alive) and fail with the stored reason instead of attempting
  the transition. \<open>close\<close> makes no such check: it never fails, and terminates the
  device.
\<close>

theorem stored_fault_fails_start_and_stop:
  assumes "socket_flag d = Some reason"
  shows "\<exists>d'. start_acquisition_data env wq d = Raised (Exception reason) d'
            \<and> stop_acquisition env d = Raised (Exception reason) d'
            \<and> socket_flag d' = Some reason \<and> \<not> alive d'
            \<and> (alive d \<longrightarrow> close_dev env d = Returned d' \<and> status d' = TERMINATE)
            \<and> (\<not> alive d \<longrightarrow> d' = d)
            \<and> (\<forall>e d''. close_dev env d \<noteq> Raised e d'')"
proof -
  from check_dev_status_fault [OF assms, of env] obtain d' where
    d': "check_dev_status env d = Raised (Exception reason) d'"
        "socket_flag d' = Some reason" "\<not> alive d'"
        "alive d \<longrightarrow> close_dev env d = Returned d' \<and> status d' = TERMINATE"
        "\<not> alive d \<longrightarrow> d' = d" by blast
  have "start_acquisition_data env wq d = Raised (Exception reason) d'"
    using d'(1) by (simp add: start_acquisition_data_def)
  moreover have "stop_acquisition env d = Raised (Exception reason) d'"
    using d'(1) by (simp add: stop_acquisition_def)
  ultimately show ?thesis using d' close_dev_never_raises by blast
qed

theorem stored_fault_fails_start_and_stop_witness:
 
  "socket_flag faulted_device = Some ''Data transmission error: device disconnected''
   \<and> \<not> alive faulted_device
   \<and> start_acquisition_data no_faults True faulted_device
        = Raised (Exception ''Data transmission error: device disconnected'') faulted_device
   \<and> stop_acquisition no_faults faulted_device
        = Raised (Exception ''Data transmission error: device disconnected'') faulted_device
   \<and> socket_flag (idle_device\<lparr>socket_flag := Some ''Connection lost.''\<rparr>) = Some ''Connection lost.''
   \<and> alive (idle_device\<lparr>socket_flag := Some ''Connection lost.''\<rparr>)
   \<and> close_dev no_faults (idle_device\<lparr>socket_flag := Some ''Connection lost.''\<rparr>)
        = Returned (terminate_thread (idle_device\<lparr>socket_flag := Some ''Connection lost.'', status := TERMINATE_START\<rparr>))
   \<and> start_acquisition_data no_faults True (idle_device\<lparr>socket_flag := Some ''Connection lost.''\<rparr>)
        = Raised (Exception ''Connection lost.'')
            (terminate_thread (idle_device\<lparr>socket_flag := Some ''Connection lost.'', status := TERMINATE_START\<rparr>))
   \<and> stop_acquisition no_faults (idle_device\<lparr>socket_flag := Some ''Connection lost.''\<rparr>)
        = Raised (Exception ''Connection lost.'')
            (terminate_thread (idle_device\<lparr>socket_flag := Some ''Connection lost.'', status := TERMINATE_START\<rparr>))"
proof -
  let ?m = "''Data transmission error: device disconnected''"
  let ?d = "idle_device\<lparr>socket_flag := Some ''Connection lost.''\<rparr>"
  have f: "socket_flag faulted_device = Some ?m"
    by (simp add: faulted_device_def idle_device_def)
  have a: "\<not> alive faulted_device" by (simp add: faulted_device_def idle_device_def)
  have g: "socket_flag ?d = Some ''Connection lost.''" by simp
  have b: "alive ?d" by (simp add: idle_device_def)
  have c: "close_dev no_faults ?d
        = Returned (terminate_thread (idle_device\<lparr>socket_flag := Some ''Connection lost.'', status := TERMINATE_START\<rparr>))"
    by (simp add: close_dev_def thread_reacts_def run_loop_def idle_device_def terminate_thread_def Let_def)
  show ?thesis
    using stored_fault_fails_start_and_stop [OF f, of no_faults True]
      stored_fault_fails_start_and_stop [OF g, of no_faults True] f a g b c
    by auto
qed

text \<open>
  C7. The claim says that selecting 500 Hz fails exactly when the device returns no
  acknowledgment. In the code it fails exactly when no input at all is waiting after the
  write, whether the device sent it in answer to the command or earlier; 250 Hz never
  fails. \<open>flush()\<close> before the write discards no input (\<open>start_data\<close>, by contrast,
  empties the input before its command), so bytes received earlier pass for an
  acknowledgment. A sensor with old firmware never answers the 500 Hz command: it is
  refused when the input is empty; it is accepted when one byte was already waiting, in
  the constructor when the sensor was found streaming, and by \<open>set_frequency(500)\<close> on
  a controller connected at 250 Hz, whose handshake bytes are still unread.
\<close>

theorem stale_input_masks_missing_acknowledgment:
  "(sock_set_frequency 500 p = Inl (NotImplementedError firmware_message))
      = (rx_buffer p @ device_reply p [0x05] = [])
   \<and> isl (sock_set_frequency 500 p) = (rx_buffer p @ device_reply p [0x05] = [])
   \<and> \<not> isl (sock_set_frequency 250 p)
   \<and> device_reply old_firmware_port [0x05] = []
   \<and> sock_set_frequency 500 old_firmware_port = Inl (NotImplementedError firmware_message)
   \<and> sock_set_frequency 500 (old_firmware_port\<lparr>rx_buffer := [0xA5]\<rparr>)
        = Inr (old_firmware_port\<lparr>tx_log := [0x05]\<rparr>)
   \<and> EMGReader_init old_sensor no_faults 10 100 50 ''high''
        = Inl (NotImplementedError firmware_message)
   \<and> map_sum id reader_fs (EMGReader_init old_sensor_streaming no_faults 10 100 50 ''high'')
        = Inr 500
   \<and> iFocus_init old_sensor no_faults (250, 50) = Inr old_device
   \<and> set_frequency (Some 500) old_device
        = Inr (old_device\<lparr>fs_eeg := 500, fs_imu := 100,
                  dev := (dev old_device)\<lparr>rx_buffer := [],
                                           tx_log := [0x04, 0x01, 0x02, 0x05]\<rparr>\<rparr>)"
  by (simp add: EMGReader_init_def iFocus_init_def find_devs_def sample_rates_def
      DEFAULT_FS_EEG_HIGH_def DEFAULT_FS_IMU_HIGH_def set_frequency_def
      sock_set_frequency_def sock_fs_def serial_write_def read_all_def connect_socket_def
      start_data_def stop_recv_def run_loop_def window_size_of_def
      DEFAULT_WINDOW_DURATION_def Let_def old_firmware_port_def old_sensor_def
      old_sensor_streaming_def old_device_def no_faults_def)

text \<open>
  C8 (as stated). The claim says that for every input signal the envelope has the length
  of the input. It does not for an input shorter than the window: with a window size of
  two, the envelope of a one-sample signal has two entries, while the same-length
  reference envelope has one.
\<close>

theorem envelope_longer_than_short_input:
  "compute_rms_envelope (EMGFilter_init 500 2 10 100 50) [1]
     = Inr [sqrt (1 / 2), sqrt (1 / 2)]
   \<and> rms_envelope_reference 2 [1] = [sqrt (1 / 2)]"
  by (simp add: compute_rms_envelope_def EMGFilter_init_def np_convolve_same_def
      convolve_full_def rms_envelope_reference_def same_length_convolution_def upt_rec Let_def)

text \<open>
  C8 (amended). For every input signal at least as long as the window size, the window
  size being positive, the envelope is the element-wise square root of the same-length
  centred convolution of the squared rectified signal with the uniform moving-average
  kernel of the window length, and has the length of the input.
\<close>

theorem compute_rms_envelope_matches_reference:
  assumes "0 < window_size flt" "window_size flt \<le> length data"
  shows "compute_rms_envelope flt data = Inr (rms_envelope_reference (window_size flt) data)
       \<and> length (rms_envelope_reference (window_size flt) data) = length data"
proof -
  let ?k = "replicate (window_size flt) (1 / real (window_size flt))"
  let ?a = "map (\<lambda>x. x ^ 2) (map abs data)"
  have k: "0 < length ?k" "length ?k \<le> length ?a" using assms by simp_all
  have a: "?a = map (\<lambda>x. \<bar>x\<bar> ^ 2) data" by simp
  have "np_convolve_same ?a ?k = Inr (same_length_convolution ?a ?k)"
    by (rule np_convolve_same_no_swap [OF k])
  then have "compute_rms_envelope flt data = Inr (map sqrt (same_length_convolution ?a ?k))"
    by (simp add: compute_rms_envelope_def Let_def)
  then have 1: "compute_rms_envelope flt data
                  = Inr (rms_envelope_reference (window_size flt) data)"
    by (simp only: rms_envelope_reference_def a)
  have 2: "length (rms_envelope_reference (window_size flt) data) = length data"
    using length_same_length_convolution [OF k(1), of "map (\<lambda>x. \<bar>x\<bar> ^ 2) data"]
    by (simp add: rms_envelope_reference_def)
  from 1 2 show ?thesis by simp
qed

theorem compute_rms_envelope_matches_reference_witness:
  "0 < window_size (EMGFilter_init 500 2 10 100 50)
   \<and> window_size (EMGFilter_init 500 2 10 100 50) \<le> length [1, 0, 1 :: real]
   \<and> compute_rms_envelope (EMGFilter_init 500 2 10 100 50) [1, 0, 1]
        = Inr (rms_envelope_reference 2 [1, 0, 1])
   \<and> rms_envelope_reference 2 [1, 0, 1] = [sqrt (1 / 2), sqrt (1 / 2), sqrt (1 / 2)]
   \<and> length (rms_envelope_reference 2 [1, 0, 1]) = length [1, 0, 1 :: real]"
proof -
  have p: "0 < window_size (EMGFilter_init 500 2 10 100 50)"
    by (simp add: EMGFilter_init_def)
  have l: "window_size (EMGFilter_init 500 2 10 100 50) \<le> length [1, 0, 1 :: real]"
    by (simp add: EMGFilter_init_def)
  have w: "window_size (EMGFilter_init 500 2 10 100 50) = 2"
    by (simp add: EMGFilter_init_def)
  have v: "rms_envelope_reference 2 [1, 0, 1] = [sqrt (1 / 2), sqrt (1 / 2), sqrt (1 / 2)]"
    by (simp add: rms_envelope_reference_def same_length_convolution_def convolve_full_def upt_rec)
  show ?thesis
    using compute_rms_envelope_matches_reference [OF p l] p l v unfolding w by simp
qed

text \<open>
  C9. \<open>start()\<close> on a session that is already running and \<open>stop()\<close> on a session that is
  already stopped return successfully and leave the session unchanged; so a second
  \<open>start()\<close> after a successful one, and a second \<open>stop()\<close> after a successful one, change
  nothing.
\<close>

theorem start_stop_idempotent:
  "(running rd \<longrightarrow> start_reading env rd = Returned rd)
   \<and> (\<not> running rd \<longrightarrow> stop_reading env rd = Returned rd)
   \<and> (start_reading env rd = Returned rd1 \<longrightarrow> start_reading env2 rd1 = Returned rd1)
   \<and> (stop_reading env rd = Returned rd1 \<longrightarrow> stop_reading env2 rd1 = Returned rd1)"
proof -
  have a: "running r \<longrightarrow> start_reading e r = Returned r" for r e
    by (simp add: start_reading_def)
  have b: "\<not> running r \<longrightarrow> stop_reading e r = Returned r" for r e
    by (simp add: stop_reading_def)
  have c: "start_reading env rd = Returned rd1 \<longrightarrow> start_reading env2 rd1 = Returned rd1"
    using a [of rd1 env2] start_reading_sets_running [of env rd rd1] by blast
  have d: "stop_reading env rd = Returned rd1 \<longrightarrow> stop_reading env2 rd1 = Returned rd1"
    using b [of rd1 env2] stop_reading_clears_running [of env rd rd1] by blast
  show ?thesis using a [of rd env] b [of rd env] c d by blast
qed

theorem start_stop_idempotent_witness:
  "running acquiring_reader
   \<and> start_reading no_faults acquiring_reader = Returned acquiring_reader
   \<and> \<not> running idle_reader
   \<and> stop_reading no_faults idle_reader = Returned idle_reader
   \<and> start_reading no_faults idle_reader = Returned acquiring_reader
   \<and> stop_reading no_faults acquiring_reader = Returned stopped_reader
   \<and> stop_reading no_faults stopped_reader = Returned stopped_reader"
proof -
  have r: "running acquiring_reader" by (simp add: acquiring_reader_def)
  have n: "\<not> running idle_reader" by (simp add: idle_reader_def)
  have s: "start_reading no_faults idle_reader = Returned acquiring_reader"
    by (simp add: start_reading_def start_acquisition_data_def check_dev_status_def
        thread_reacts_def run_loop_def no_faults_def idle_reader_def idle_device_def
        acquiring_reader_def start_data_def serial_write_def read_all_def Let_def)
  have t: "stop_reading no_faults acquiring_reader = Returned stopped_reader"
    by (simp add: stop_reading_def stop_acquisition_def check_dev_status_def thread_reacts_def
        run_loop_def no_faults_def idle_reader_def idle_device_def acquiring_reader_def
        stopped_reader_def recv_finish_def clear_buffer_def stop_recv_def close_dev_def
        terminate_thread_def close_socket_def join_read_thread_def serial_write_def
        read_all_def Let_def)
  have i1: "start_reading no_faults acquiring_reader = Returned acquiring_reader"
    using start_stop_idempotent [of acquiring_reader no_faults stopped_reader no_faults] r
    by blast
  have i2: "stop_reading no_faults idle_reader = Returned idle_reader"
    using start_stop_idempotent [of idle_reader no_faults acquiring_reader no_faults] n
    by blast
  have i3: "stop_reading no_faults stopped_reader = Returned stopped_reader"
    using start_stop_idempotent [of acquiring_reader no_faults stopped_reader no_faults] t
    by blast
  from r i1 n i2 s t i3 show ?thesis by (intro conjI)
qed




end
